theory Spec2Isabelle
  imports Main
begin

section \<open>The DNS-validated ACM certificate client (ACM.py)\<close>

text \<open>
  A shallow embedding of the class \<open>DNSValidatedACMCertClient\<close>. Python strings are
  \<open>string\<close>; the two boto3 clients, the helper module \<open>aws_helpers\<close> and the
  library \<open>tldextract\<close> are parameters of the functions that call them. Everything
  a method does besides returning (calls to the clients, \<open>time.sleep\<close>, \<open>print\<close>)
  is appended to a trace of events, and every exception is a value of \<open>error\<close>.
\<close>

subsection \<open>Errors\<close>

datatype error =
    IndexError          \<comment> \<open>\<open>target_record[0]\<close> on an empty list\<close>
  | AttributeError      \<comment> \<open>\<open>.get\<close> on \<open>None\<close>\<close>
  | KeyError            \<comment> \<open>\<open>d['k']\<close> on a missing key\<close>
  | ValueError          \<comment> \<open>\<open>time.sleep\<close> of a negative length\<close>
  | TimeoutException int  \<comment> \<open>\<open>Exception('Timeout ({}s) reached ...'.format(timeout))\<close>\<close>
  | ClientError string  \<comment> \<open>an exception raised inside a boto3 client call\<close>

subsection \<open>Hosted zones and the zone lookup\<close>

text \<open>An entry of \<open>self.route53_zones.get('HostedZones')\<close>: its \<open>Name\<close> and \<open>Id\<close>.\<close>

record hosted_zone =
  zone_Name :: string
  zone_Id :: string

text \<open>\<open>str.split(sep)\<close> for a one-character separator: never the empty list.\<close>

fun split :: "char \<Rightarrow> string \<Rightarrow> string list" where
  "split sep [] = [[]]"
| "split sep (c # cs) =
     (if c = sep then [] # split sep cs
      else (case split sep cs of
              [] \<Rightarrow> [[c]]
            | w # ws \<Rightarrow> (c # w) # ws))"

text \<open>
  The result of \<open>tldextract.extract\<close>: subdomain, domain and suffix. The function
  itself belongs to the library and is the parameter \<open>extract\<close> below.
\<close>

record extract_result =
  subdomain :: string
  domain :: string
  suffix :: string

definition get_domain_from_host :: "(string \<Rightarrow> extract_result) \<Rightarrow> string \<Rightarrow> string" where
  "get_domain_from_host extract validation_dns_record =
     (let domain_tld_info = extract validation_dns_record
      in domain domain_tld_info @ ''.'' @ suffix domain_tld_info)"

definition domain_matches_hosted_zone :: "string \<Rightarrow> hosted_zone \<Rightarrow> bool" where
  "domain_matches_hosted_zone d zone \<longleftrightarrow> zone_Name zone = d @ ''.''"

text \<open>
  \<open>zone_id_string.split('/')[-1]\<close>: the index \<open>[-1]\<close> is \<open>last\<close>, the list of a split
  being never empty (\<open>split_not_Nil\<close> below).
\<close>

definition get_zone_id_from_id_string :: "string \<Rightarrow> string" where
  "get_zone_id_from_id_string zone_id_string = last (split CHR ''/'' zone_id_string)"

text \<open>
  \<open>route53_zones\<close> is the list \<open>self.route53_zones.get('HostedZones')\<close>, fetched once by
  the constructor; \<open>target_record[0]\<close> raises on the empty list.
\<close>

definition get_hosted_zone_id ::
  "(string \<Rightarrow> extract_result) \<Rightarrow> hosted_zone list \<Rightarrow> string \<Rightarrow> error + string" where
  "get_hosted_zone_id extract route53_zones validation_dns_record =
     (let hosted_zone_domain = get_domain_from_host extract validation_dns_record;
          target_record = filter (domain_matches_hosted_zone hosted_zone_domain) route53_zones
      in case target_record of
           [] \<Rightarrow> Inl IndexError
         | zone # _ \<Rightarrow> Inr (get_zone_id_from_id_string (zone_Id zone)))"

text \<open>
  A small reader of host names in the manner of \<open>tldextract\<close>, over a given list of
  public suffixes (each a list of labels): the suffix is the longest listed one the
  host ends with, the domain the label in front of it. It instantiates \<open>extract\<close> in the
  examples.
\<close>

definition join :: "string \<Rightarrow> string list \<Rightarrow> string" where
  "join sep ws = (case ws of [] \<Rightarrow> [] | w # rest \<Rightarrow> w @ concat (map (\<lambda>v. sep @ v) rest))"

fun extract_labels :: "string list list \<Rightarrow> string list \<Rightarrow> string list \<Rightarrow> extract_result" where
  "extract_labels suffixes front [] =
     \<lparr>subdomain = join ''.'' (butlast front), domain = (if front = [] then [] else last front),
      suffix = []\<rparr>"
| "extract_labels suffixes front (l # ls) =
     (if (l # ls) \<in> set suffixes
      then \<lparr>subdomain = join ''.'' (butlast front),
            domain = (if front = [] then [] else last front), suffix = join ''.'' (l # ls)\<rparr>
      else extract_labels suffixes (front @ [l]) ls)"

definition extract_with :: "string list list \<Rightarrow> string \<Rightarrow> extract_result" where
  "extract_with suffixes host = extract_labels suffixes [] (split CHR ''.'' host)"

definition public_suffixes :: "string list list" where
  "public_suffixes = [[''com''], [''uk''], [''co'', ''uk''], [''org'']]"

subsection \<open>Requests, responses and the trace of effects\<close>

text \<open>
  What the code reads of a boto3 response: \<open>response['ResponseMetadata']['HTTPStatusCode']\<close>
  (through \<open>aws_helpers\<close>) and \<open>response.get('CertificateArn')\<close>.
\<close>

record response =
  HTTPStatusCode :: "int option"
  CertificateArn :: "string option"

text \<open>
  Modelled from the spec: \<open>aws_helpers.response_succeeded\<close>, whose module is not among
  the sources. The spec: the success signal is a boolean derived from the response's
  HTTP-status metadata; any non-2xx is treated as failure. The methods below take the
  helper as the parameter \<open>response_succeeded\<close>; this definition instantiates it in the
  examples.
\<close>

definition response_succeeded_2xx :: "response \<Rightarrow> bool" where
  "response_succeeded_2xx r =
     (case HTTPStatusCode r of None \<Rightarrow> False | Some code \<Rightarrow> 200 \<le> code \<and> code < 300)"

text \<open>The keyword arguments of \<open>acm_client.request_certificate\<close>; an absent keyword is \<open>None\<close>.\<close>

record certificate_request =
  DomainName :: string
  ValidationMethod :: string
  SubjectAlternativeNames :: "string list option"

text \<open>
  A \<open>ResourceRecord\<close> of a certificate description (\<open>Name\<close>, \<open>Type\<close> and \<open>Value\<close> are
  required members of it in the service's interface), and an entry of
  \<open>DomainValidationOptions\<close>, which may lack its \<open>ResourceRecord\<close>.
\<close>

record resource_record =
  rr_Type :: string
  rr_Name :: string
  rr_Value :: string

record domain_validation =
  ResourceRecord :: "resource_record option"

record certificate =
  Status :: "string option"
  DomainValidationOptions :: "domain_validation list option"

record describe_response =
  Certificate :: "certificate option"

text \<open>
  The dictionary that \<open>create_dns_record_set\<close> builds. \<open>ResourceRecords\<close> is a list of
  one-key dictionaries \<open>{'Value': v}\<close>, kept as the list of their values.
\<close>

record resource_record_set =
  rrs_Name :: string
  rrs_Type :: string
  rrs_ResourceRecords :: "string list"
  rrs_TTL :: int

record change =
  Action :: string
  ResourceRecordSet :: resource_record_set

datatype log_line =
    Waiting string int int
      \<comment> \<open>\<open>"{}: Waiting {}s for validation, {}s elapsed..."\<close>\<close>
  | Creating string string
      \<comment> \<open>\<open>"Creating %s record for %s"\<close>\<close>
  | Succeeded string
      \<comment> \<open>\<open>"Successfully created Route 53 record set for {}"\<close>\<close>
  | Failed response
      \<comment> \<open>\<open>"Failed to create Route53 record set: {}"\<close>\<close>

datatype event =
    RequestCertificate certificate_request
      \<comment> \<open>a call of \<open>acm_client.request_certificate\<close>\<close>
  | DescribeCertificate string
      \<comment> \<open>a call of \<open>acm_client.describe_certificate(CertificateArn=arn)\<close>\<close>
  | Sleep int
      \<comment> \<open>\<open>time.sleep\<close>\<close>
  | Print log_line
  | ChangeResourceRecordSets string "change list"
      \<comment> \<open>a call of \<open>route_53_client.change_resource_record_sets\<close>: zone id and changes\<close>

text \<open>
  The services answer by the number of earlier calls of the same operation, counted in
  the trace: \<open>acm_describe_certificate k arn\<close> is the answer to the call after \<open>k\<close>
  earlier ones. A client call that raises answers \<open>Inl\<close>.
\<close>

fun is_describe :: "event \<Rightarrow> bool" where
  "is_describe (DescribeCertificate _) = True"
| "is_describe _ = False"

fun is_change :: "event \<Rightarrow> bool" where
  "is_change (ChangeResourceRecordSets _ _) = True"
| "is_change _ = False"

definition describe_calls :: "event list \<Rightarrow> nat" where
  "describe_calls tr = length (filter is_describe tr)"

definition change_calls :: "event list \<Rightarrow> nat" where
  "change_calls tr = length (filter is_change tr)"

subsection \<open>Requesting the certificate\<close>

definition get_certificate_arn :: "response \<Rightarrow> string option" where
  "get_certificate_arn response = CertificateArn response"

text \<open>
  \<open>request_certificate\<close> returns the ARN, or \<open>None\<close>: by \<open>response.get\<close>, or by
  falling off the end when the response did not succeed.
\<close>

definition request_certificate ::
  "(response \<Rightarrow> bool) \<Rightarrow> (certificate_request \<Rightarrow> error + response) \<Rightarrow> string \<Rightarrow>
   string list \<Rightarrow> event list \<Rightarrow> (error + string option) \<times> event list" where
  "request_certificate response_succeeded acm_request_certificate self_domain
       subject_alternative_names tr =
     (let request =
            (if length subject_alternative_names > 0
             then \<lparr>DomainName = self_domain, ValidationMethod = ''DNS'',
                   SubjectAlternativeNames = Some subject_alternative_names\<rparr>
             else \<lparr>DomainName = self_domain, ValidationMethod = ''DNS'',
                   SubjectAlternativeNames = None\<rparr>);
          tr1 = tr @ [RequestCertificate request]
      in case acm_request_certificate request of
           Inl e \<Rightarrow> (Inl e, tr1)
         | Inr response \<Rightarrow>
             if response_succeeded response then (Inr (get_certificate_arn response), tr1)
             else (Inr None, tr1))"

subsection \<open>Waiting for the validation\<close>

definition get_certificate_status ::
  "(nat \<Rightarrow> string \<Rightarrow> error + describe_response) \<Rightarrow> string \<Rightarrow> event list \<Rightarrow>
   (error + string) \<times> event list" where
  "get_certificate_status acm_describe_certificate certificate_arn tr =
     (let tr1 = tr @ [DescribeCertificate certificate_arn]
      in case acm_describe_certificate (describe_calls tr) certificate_arn of
           Inl e \<Rightarrow> (Inl e, tr1)
         | Inr r \<Rightarrow>
             (case Certificate r of
                None \<Rightarrow> (Inl KeyError, tr1)
              | Some c \<Rightarrow>
                  (case Status c of
                     None \<Rightarrow> (Inl KeyError, tr1)
                   | Some s \<Rightarrow> (Inr s, tr1))))"

text \<open>
  The \<open>while\<close> loop of \<open>wait_for_certificate_validation\<close>, from its test on: it need not
  end (a pending certificate polled with \<open>sleep_time = 0\<close>), so not returning is \<open>None\<close>.
\<close>

partial_function (option) wait_loop ::
  "(nat \<Rightarrow> string \<Rightarrow> error + describe_response) \<Rightarrow> string \<Rightarrow> int \<Rightarrow> int \<Rightarrow>
   string \<Rightarrow> int \<Rightarrow> event list \<Rightarrow> ((error + unit) \<times> event list) option" where
  "wait_loop acm_describe_certificate certificate_arn sleep_time timeout status elapsed_time tr =
     (if status = ''PENDING_VALIDATION'' then
        if elapsed_time > timeout then Some (Inl (TimeoutException timeout), tr)
        else
          let tr1 = tr @ [Print (Waiting certificate_arn sleep_time elapsed_time)] in
          if sleep_time < 0 then Some (Inl ValueError, tr1)
          else
            case get_certificate_status acm_describe_certificate certificate_arn
                   (tr1 @ [Sleep sleep_time]) of
              (Inl e, tr2) \<Rightarrow> Some (Inl e, tr2)
            | (Inr status', tr2) \<Rightarrow>
                wait_loop acm_describe_certificate certificate_arn sleep_time timeout
                  status' (elapsed_time + sleep_time) tr2
      else Some (Inr (), tr))"

declare wait_loop.simps [code]

definition wait_for_certificate_validation ::
  "(nat \<Rightarrow> string \<Rightarrow> error + describe_response) \<Rightarrow> string \<Rightarrow> int \<Rightarrow> int \<Rightarrow>
   event list \<Rightarrow> ((error + unit) \<times> event list) option" where
  "wait_for_certificate_validation acm_describe_certificate certificate_arn sleep_time timeout tr =
     (case get_certificate_status acm_describe_certificate certificate_arn tr of
        (Inl e, tr1) \<Rightarrow> Some (Inl e, tr1)
      | (Inr status, tr1) \<Rightarrow>
          wait_loop acm_describe_certificate certificate_arn sleep_time timeout status 0 tr1)"

subsection \<open>Building and submitting the DNS changes\<close>













text \<open>Counting the sleeps of a trace.\<close>

fun is_sleep :: "event \<Rightarrow> bool" where
  "is_sleep (Sleep _) = True"
| "is_sleep _ = False"

definition sleep_calls :: "event list \<Rightarrow> nat" where
  "sleep_calls tr = length (filter is_sleep tr)"

subsection \<open>Services for the examples\<close>



definition issuing_acm :: "certificate_request \<Rightarrow> error + response" where
  "issuing_acm request =
     Inr \<lparr>HTTPStatusCode = Some 200, CertificateArn = Some (''arn:aws:acm:'' @ DomainName request)\<rparr>"

definition status_response :: "string \<Rightarrow> error + describe_response" where
  "status_response s = Inr \<lparr>Certificate = Some \<lparr>Status = Some s, DomainValidationOptions = None\<rparr>\<rparr>"

definition always_pending :: "nat \<Rightarrow> string \<Rightarrow> error + describe_response" where
  "always_pending k arn = status_response ''PENDING_VALIDATION''"

definition pending_twice_then_issued :: "nat \<Rightarrow> string \<Rightarrow> error + describe_response" where
  "pending_twice_then_issued k arn =
     status_response (if k < 2 then ''PENDING_VALIDATION'' else ''ISSUED'')"



section \<open>Properties\<close>

subsection \<open>Splitting a string\<close>

lemma split_not_Nil: "split sep s \<noteq> []"
  by (induction s) (auto split: list.splits)

lemma split_no_sep: "sep \<notin> set s \<Longrightarrow> split sep s = [s]"
  by (induction s) auto

lemma last_split_no_sep: "sep \<notin> set (last (split sep s))"
  by (induction s) (auto simp: split_not_Nil split: list.splits)

lemma split_sep_two: "sep \<in> set s \<Longrightarrow> \<exists>w v vs. split sep s = w # v # vs"
proof (induction s)
  case Nil
  then show ?case by simp
next
  case (Cons c cs)
  show ?case
  proof (cases "c = sep")
    case True
    then show ?thesis using split_not_Nil [of sep cs] by (cases "split sep cs") auto
  next
    case False
    with Cons show ?thesis by auto
  qed
qed

lemma last_split_suffix: "sep \<in> set s \<Longrightarrow> \<exists>pre. s = pre @ sep # last (split sep s)"
proof (induction s)
  case Nil
  then show ?case by simp
next
  case (Cons c cs)
  show ?case
  proof (cases "sep \<in> set cs")
    case True
    then obtain pre where pre: "cs = pre @ sep # last (split sep cs)"
      using Cons.IH by blast
    have "last (split sep (c # cs)) = last (split sep cs)"
      using split_sep_two [OF True] by (auto split: list.splits)
    with pre have "c # cs = (c # pre) @ sep # last (split sep (c # cs))" by simp
    then show ?thesis by blast
  next
    case False
    with Cons.prems have c: "c = sep" by simp
    from False have "split sep cs = [cs]" by (rule split_no_sep)
    with c have "c # cs = [] @ sep # last (split sep (c # cs))" by simp
    then show ?thesis by blast
  qed
qed

subsection \<open>The zone lookup\<close>

lemma get_hosted_zone_id_find:
  "get_hosted_zone_id extract zones name =
     (case find (\<lambda>z. zone_Name z = get_domain_from_host extract name @ ''.'') zones of
        None \<Rightarrow> Inl IndexError
      | Some z \<Rightarrow> Inr (get_zone_id_from_id_string (zone_Id z)))"
proof -
  have "(case filter P zs of [] \<Rightarrow> a | z # _ \<Rightarrow> f z) = (case find P zs of None \<Rightarrow> a | Some z \<Rightarrow> f z)"
    for P :: "hosted_zone \<Rightarrow> bool" and zs a and f :: "hosted_zone \<Rightarrow> error + string"
    by (induction zs) auto
  then show ?thesis
    by (simp add: get_hosted_zone_id_def domain_matches_hosted_zone_def [abs_def])
qed

text \<open>
  C5: for every record name, \<open>get_hosted_zone_id\<close> reduces the name to the domain and
  suffix that \<open>tldextract\<close> reads from it, joined by a dot, and selects the first zone of
  the cached list whose \<open>Name\<close> is that domain followed by a dot, returning the last
  segment of its \<open>Id\<close>. With the zones \<open>example.com.\<close> and \<open>other.com.\<close> and the record name
  \<open>www.example.com\<close> (read as \<open>example\<close> + \<open>com\<close>), it returns the id of the zone
  \<open>example.com.\<close>.
\<close>

theorem get_hosted_zone_id_find_registrable:
  "get_domain_from_host extract name = domain (extract name) @ ''.'' @ suffix (extract name)
   \<and> get_hosted_zone_id extract zones name =
       (case find (\<lambda>z. zone_Name z = get_domain_from_host extract name @ ''.'') zones of
          None \<Rightarrow> Inl IndexError
        | Some z \<Rightarrow> Inr (get_zone_id_from_id_string (zone_Id z)))
   \<and> (extract ''www.example.com'' = \<lparr>subdomain = ''www'', domain = ''example'', suffix = ''com''\<rparr>
        \<longrightarrow> get_hosted_zone_id extract
              [\<lparr>zone_Name = ''example.com.'', zone_Id = id1\<rparr>,
               \<lparr>zone_Name = ''other.com.'', zone_Id = id2\<rparr>] ''www.example.com''
            = Inr (get_zone_id_from_id_string id1))"
proof (intro conjI impI)
  show "get_domain_from_host extract name = domain (extract name) @ ''.'' @ suffix (extract name)"
    by (simp add: get_domain_from_host_def Let_def)
  show "get_hosted_zone_id extract zones name =
       (case find (\<lambda>z. zone_Name z = get_domain_from_host extract name @ ''.'') zones of
          None \<Rightarrow> Inl IndexError
        | Some z \<Rightarrow> Inr (get_zone_id_from_id_string (zone_Id z)))"
    by (rule get_hosted_zone_id_find)
next
  assume "extract ''www.example.com'' = \<lparr>subdomain = ''www'', domain = ''example'', suffix = ''com''\<rparr>"
  then show "get_hosted_zone_id extract
              [\<lparr>zone_Name = ''example.com.'', zone_Id = id1\<rparr>,
               \<lparr>zone_Name = ''other.com.'', zone_Id = id2\<rparr>] ''www.example.com''
            = Inr (get_zone_id_from_id_string id1)"
    by (simp add: get_hosted_zone_id_find get_domain_from_host_def Let_def)
qed

theorem get_hosted_zone_id_find_registrable_witness:
  "extract_with public_suffixes ''www.example.com''
     = \<lparr>subdomain = ''www'', domain = ''example'', suffix = ''com''\<rparr>
   \<and> get_hosted_zone_id (extract_with public_suffixes)
              [\<lparr>zone_Name = ''example.com.'', zone_Id = ''/hostedzone/Z111''\<rparr>,
               \<lparr>zone_Name = ''other.com.'', zone_Id = ''/hostedzone/Z222''\<rparr>] ''www.example.com''
       = Inr ''Z111''"
proof -
  have ex: "extract_with public_suffixes ''www.example.com''
     = \<lparr>subdomain = ''www'', domain = ''example'', suffix = ''com''\<rparr>"
    by (simp add: extract_with_def public_suffixes_def join_def)
  have "get_zone_id_from_id_string ''/hostedzone/Z111'' = ''Z111''"
    by (simp add: get_zone_id_from_id_string_def)
  with ex get_hosted_zone_id_find_registrable
         [of "extract_with public_suffixes" "''www.example.com''" "[]"
             "''/hostedzone/Z111''" "''/hostedzone/Z222''"]
  show ?thesis by simp
qed

text \<open>
  C6: when no zone of the cached list is named as the record's registrable domain
  followed by a dot, \<open>get_hosted_zone_id\<close> returns no zone id: it fails, with the
  \<open>IndexError\<close> of \<open>target_record[0]\<close>.
\<close>

theorem get_hosted_zone_id_no_match:
  assumes "\<forall>z \<in> set zones. zone_Name z \<noteq> get_domain_from_host extract name @ ''.''"
  shows "get_hosted_zone_id extract zones name = Inl IndexError"
proof -
  from assms have "filter (domain_matches_hosted_zone (get_domain_from_host extract name)) zones = []"
    by (simp add: filter_empty_conv domain_matches_hosted_zone_def)
  then show ?thesis by (simp add: get_hosted_zone_id_def)
qed

theorem get_hosted_zone_id_no_match_witness:
  "zone_Name \<lparr>zone_Name = ''other.com.'', zone_Id = ''/hostedzone/Z222''\<rparr>
     \<noteq> get_domain_from_host (extract_with public_suffixes) ''www.example.co.uk'' @ ''.''
   \<and> get_hosted_zone_id (extract_with public_suffixes)
        [\<lparr>zone_Name = ''other.com.'', zone_Id = ''/hostedzone/Z222''\<rparr>] ''www.example.co.uk''
       = Inl IndexError"
proof -
  have d: "get_domain_from_host (extract_with public_suffixes) ''www.example.co.uk'' = ''example.co.uk''"
    by (simp add: get_domain_from_host_def Let_def extract_with_def public_suffixes_def join_def)
  then have "\<forall>z \<in> set [\<lparr>zone_Name = ''other.com.'', zone_Id = ''/hostedzone/Z222''\<rparr>].
      zone_Name z \<noteq> get_domain_from_host (extract_with public_suffixes) ''www.example.co.uk'' @ ''.''"
    by simp
  from get_hosted_zone_id_no_match [OF this] d show ?thesis by simp
qed

text \<open>
  C7: the zone whose id is returned is the first matching one in listing order, whatever
  follows it in the list (further matching zones included).
\<close>

theorem get_hosted_zone_id_first_match:
  assumes "zones = earlier @ zone # later"
    and "\<forall>z \<in> set earlier. zone_Name z \<noteq> get_domain_from_host extract name @ ''.''"
    and "zone_Name zone = get_domain_from_host extract name @ ''.''"
  shows "get_hosted_zone_id extract zones name = Inr (get_zone_id_from_id_string (zone_Id zone))"
proof -
  from assms(2) have "filter (domain_matches_hosted_zone (get_domain_from_host extract name)) earlier = []"
    by (simp add: filter_empty_conv domain_matches_hosted_zone_def)
  with assms(1,3) show ?thesis
    by (simp add: get_hosted_zone_id_def domain_matches_hosted_zone_def)
qed

theorem get_hosted_zone_id_first_match_witness:
  "get_hosted_zone_id (extract_with public_suffixes)
        [\<lparr>zone_Name = ''other.com.'', zone_Id = ''/hostedzone/Z0''\<rparr>,
         \<lparr>zone_Name = ''example.com.'', zone_Id = ''/hostedzone/ZPUBLIC''\<rparr>,
         \<lparr>zone_Name = ''example.com.'', zone_Id = ''/hostedzone/ZPRIVATE''\<rparr>] ''www.example.com''
       = Inr ''ZPUBLIC''"
proof -
  have d: "get_domain_from_host (extract_with public_suffixes) ''www.example.com'' = ''example.com''"
    by (simp add: get_domain_from_host_def Let_def extract_with_def public_suffixes_def join_def)
  have i: "get_zone_id_from_id_string ''/hostedzone/ZPUBLIC'' = ''ZPUBLIC''"
    by (simp add: get_zone_id_from_id_string_def)
  have "get_hosted_zone_id (extract_with public_suffixes)
          ([\<lparr>zone_Name = ''other.com.'', zone_Id = ''/hostedzone/Z0''\<rparr>]
           @ \<lparr>zone_Name = ''example.com.'', zone_Id = ''/hostedzone/ZPUBLIC''\<rparr>
           # [\<lparr>zone_Name = ''example.com.'', zone_Id = ''/hostedzone/ZPRIVATE''\<rparr>]) ''www.example.com''
        = Inr (get_zone_id_from_id_string
                 (zone_Id \<lparr>zone_Name = ''example.com.'', zone_Id = ''/hostedzone/ZPUBLIC''\<rparr>))"
    by (rule get_hosted_zone_id_first_match [OF refl]) (simp_all add: d)
  with i show ?thesis by simp
qed

text \<open>
  C10: for a matched zone, the identifier returned is the part of the zone's \<open>Id\<close> after
  its last \<open>/\<close>: it holds no \<open>/\<close>, and the \<open>Id\<close> is some prefix, a \<open>/\<close>, and the identifier;
  an \<open>Id\<close> without \<open>/\<close> is returned whole.
\<close>

theorem get_hosted_zone_id_last_segment:
  assumes "filter (domain_matches_hosted_zone (get_domain_from_host extract name)) zones
             = zone # others"
  shows "\<exists>zid. get_hosted_zone_id extract zones name = Inr zid
           \<and> CHR ''/'' \<notin> set zid
           \<and> (if CHR ''/'' \<in> set (zone_Id zone)
              then \<exists>pre. zone_Id zone = pre @ CHR ''/'' # zid
              else zid = zone_Id zone)"
proof -
  let ?zid = "get_zone_id_from_id_string (zone_Id zone)"
  from assms have "get_hosted_zone_id extract zones name = Inr ?zid"
    by (simp add: get_hosted_zone_id_def)
  moreover have "CHR ''/'' \<notin> set ?zid"
    unfolding get_zone_id_from_id_string_def by (rule last_split_no_sep)
  moreover have "\<exists>pre. zone_Id zone = pre @ CHR ''/'' # ?zid" if "CHR ''/'' \<in> set (zone_Id zone)"
    unfolding get_zone_id_from_id_string_def using that by (rule last_split_suffix)
  moreover have "?zid = zone_Id zone" if "CHR ''/'' \<notin> set (zone_Id zone)"
    unfolding get_zone_id_from_id_string_def using that by (simp add: split_no_sep)
  ultimately show ?thesis by simp
qed

theorem get_hosted_zone_id_last_segment_witness:
  "filter (domain_matches_hosted_zone
             (get_domain_from_host (extract_with public_suffixes) ''www.example.com''))
          [\<lparr>zone_Name = ''example.com.'', zone_Id = ''/hostedzone/Z123''\<rparr>]
     = [\<lparr>zone_Name = ''example.com.'', zone_Id = ''/hostedzone/Z123''\<rparr>]
   \<and> get_hosted_zone_id (extract_with public_suffixes)
        [\<lparr>zone_Name = ''example.com.'', zone_Id = ''/hostedzone/Z123''\<rparr>] ''www.example.com''
       = Inr ''Z123''
   \<and> get_zone_id_from_id_string ''Z123'' = ''Z123''"
proof -
  have d: "get_domain_from_host (extract_with public_suffixes) ''www.example.com'' = ''example.com''"
    by (simp add: get_domain_from_host_def Let_def extract_with_def public_suffixes_def join_def)
  have f: "filter (domain_matches_hosted_zone
             (get_domain_from_host (extract_with public_suffixes) ''www.example.com''))
          [\<lparr>zone_Name = ''example.com.'', zone_Id = ''/hostedzone/Z123''\<rparr>]
     = [\<lparr>zone_Name = ''example.com.'', zone_Id = ''/hostedzone/Z123''\<rparr>]"
    by (simp add: d domain_matches_hosted_zone_def)
  have i: "get_zone_id_from_id_string ''/hostedzone/Z123'' = ''Z123''"
    by (simp add: get_zone_id_from_id_string_def)
  have j: "get_zone_id_from_id_string ''Z123'' = ''Z123''"
    by (simp add: get_zone_id_from_id_string_def)
  from get_hosted_zone_id_last_segment [OF f]
  obtain zid where "get_hosted_zone_id (extract_with public_suffixes)
        [\<lparr>zone_Name = ''example.com.'', zone_Id = ''/hostedzone/Z123''\<rparr>] ''www.example.com''
       = Inr zid" by blast
  moreover have "get_hosted_zone_id (extract_with public_suffixes)
        [\<lparr>zone_Name = ''example.com.'', zone_Id = ''/hostedzone/Z123''\<rparr>] ''www.example.com''
       = Inr ''Z123''"
    using f i by (simp add: get_hosted_zone_id_def)
  ultimately show ?thesis using f j by simp
qed

subsection \<open>The change set\<close>











subsection \<open>Requesting the certificate\<close>

text \<open>
  C4: \<open>request_certificate\<close> sends one request, for the primary domain with the DNS
  validation method; it carries \<open>SubjectAlternativeNames\<close> if and only if the list of
  alternative names is not empty (and then carries that list).
\<close>

theorem request_certificate_sends_names_iff_nonempty:
  "\<exists>request.
     snd (request_certificate response_succeeded acm self_domain sans tr)
       = tr @ [RequestCertificate request]
     \<and> DomainName request = self_domain
     \<and> ValidationMethod request = ''DNS''
     \<and> (SubjectAlternativeNames request \<noteq> None) = (sans \<noteq> [])
     \<and> SubjectAlternativeNames request = (if sans = [] then None else Some sans)"
  by (cases "sans = []")
     (auto simp: request_certificate_def Let_def split: sum.splits)

theorem request_certificate_sends_names_iff_nonempty_witness:
  "snd (request_certificate response_succeeded_2xx issuing_acm ''www.example.com'' [] [])
     = [RequestCertificate \<lparr>DomainName = ''www.example.com'', ValidationMethod = ''DNS'',
                             SubjectAlternativeNames = None\<rparr>]
   \<and> snd (request_certificate response_succeeded_2xx issuing_acm ''www.example.com''
            [''api.example.com''] [])
     = [RequestCertificate \<lparr>DomainName = ''www.example.com'', ValidationMethod = ''DNS'',
                             SubjectAlternativeNames = Some [''api.example.com'']\<rparr>]"
proof -
  from request_certificate_sends_names_iff_nonempty
         [where response_succeeded = response_succeeded_2xx and acm = issuing_acm
            and self_domain = "''www.example.com''" and sans = "[]" and tr = "[]"]
  obtain r1 where "snd (request_certificate response_succeeded_2xx issuing_acm ''www.example.com'' [] [])
       = [] @ [RequestCertificate r1]"
    and "DomainName r1 = ''www.example.com''" and "ValidationMethod r1 = ''DNS''"
    and "SubjectAlternativeNames r1 = None"
    by auto
  then have a: "snd (request_certificate response_succeeded_2xx issuing_acm ''www.example.com'' [] [])
     = [RequestCertificate \<lparr>DomainName = ''www.example.com'', ValidationMethod = ''DNS'',
                             SubjectAlternativeNames = None\<rparr>]"
    by (cases r1) simp
  from request_certificate_sends_names_iff_nonempty
         [where response_succeeded = response_succeeded_2xx and acm = issuing_acm
            and self_domain = "''www.example.com''" and sans = "[''api.example.com'']"
            and tr = "[]"]
  obtain r2 where "snd (request_certificate response_succeeded_2xx issuing_acm ''www.example.com''
            [''api.example.com''] []) = [] @ [RequestCertificate r2]"
    and "DomainName r2 = ''www.example.com''" and "ValidationMethod r2 = ''DNS''"
    and "SubjectAlternativeNames r2 = Some [''api.example.com'']"
    by auto
  then have b: "snd (request_certificate response_succeeded_2xx issuing_acm ''www.example.com''
            [''api.example.com''] [])
     = [RequestCertificate \<lparr>DomainName = ''www.example.com'', ValidationMethod = ''DNS'',
                             SubjectAlternativeNames = Some [''api.example.com'']\<rparr>]"
    by (cases r2) simp
  from a b show ?thesis by simp
qed




subsection \<open>Waiting for the validation\<close>

lemma get_certificate_status_answer:
  "acm (describe_calls tr) arn = status_response s \<Longrightarrow>
   get_certificate_status acm arn tr = (Inr s, tr @ [DescribeCertificate arn])"
  by (simp add: get_certificate_status_def status_response_def)

lemma wait_loop_done:
  "status \<noteq> ''PENDING_VALIDATION'' \<Longrightarrow>
   wait_loop acm arn sleep_time timeout status elapsed tr = Some (Inr (), tr)"
  by (subst wait_loop.simps) simp

lemma wait_loop_timeout:
  "timeout < elapsed \<Longrightarrow>
   wait_loop acm arn sleep_time timeout ''PENDING_VALIDATION'' elapsed tr
     = Some (Inl (TimeoutException timeout), tr)"
  by (subst wait_loop.simps) simp

lemma wait_loop_pending_step:
  assumes "elapsed \<le> timeout" and "0 \<le> sleep_time"
    and "acm (describe_calls tr) arn = status_response s"
  shows "wait_loop acm arn sleep_time timeout ''PENDING_VALIDATION'' elapsed tr
     = wait_loop acm arn sleep_time timeout s (elapsed + sleep_time)
         (tr @ [Print (Waiting arn sleep_time elapsed), Sleep sleep_time,
                DescribeCertificate arn])"
proof -
  have "describe_calls (tr @ [Print (Waiting arn sleep_time elapsed), Sleep sleep_time])
          = describe_calls tr"
    by (simp add: describe_calls_def)
  with assms(3) have "get_certificate_status acm arn
          ((tr @ [Print (Waiting arn sleep_time elapsed)]) @ [Sleep sleep_time])
        = (Inr s, tr @ [Print (Waiting arn sleep_time elapsed), Sleep sleep_time,
                        DescribeCertificate arn])"
    by (simp add: get_certificate_status_answer)
  with assms(1,2) show ?thesis
    by (subst wait_loop.simps) (simp add: Let_def)
qed

lemma describe_calls_snoc:
  "describe_calls (tr @ [e]) = describe_calls tr + (if is_describe e then 1 else 0)"
  by (simp add: describe_calls_def)

lemma wait_always_pending:
  assumes "\<forall>k. acm k arn = status_response ''PENDING_VALIDATION''"
  shows "wait_for_certificate_validation acm arn 5 10 tr
     = Some (Inl (TimeoutException 10),
             tr @ [DescribeCertificate arn,
                   Print (Waiting arn 5 0), Sleep 5, DescribeCertificate arn,
                   Print (Waiting arn 5 5), Sleep 5, DescribeCertificate arn,
                   Print (Waiting arn 5 10), Sleep 5, DescribeCertificate arn])"
proof -
  have p: "acm (describe_calls t) arn = status_response ''PENDING_VALIDATION''" for t
    using assms by simp
  have "wait_for_certificate_validation acm arn 5 10 tr
      = wait_loop acm arn 5 10 ''PENDING_VALIDATION'' 0 (tr @ [DescribeCertificate arn])"
    by (simp add: wait_for_certificate_validation_def get_certificate_status_answer p)
  also have "\<dots> = wait_loop acm arn 5 10 ''PENDING_VALIDATION'' 5
      ((tr @ [DescribeCertificate arn])
       @ [Print (Waiting arn 5 0), Sleep 5, DescribeCertificate arn])"
    using wait_loop_pending_step [where acm = acm and arn = arn and timeout = 10
        and sleep_time = 5 and elapsed = 0 and s = "''PENDING_VALIDATION''"] p by simp
  also have "\<dots> = wait_loop acm arn 5 10 ''PENDING_VALIDATION'' 10
      (((tr @ [DescribeCertificate arn])
       @ [Print (Waiting arn 5 0), Sleep 5, DescribeCertificate arn])
       @ [Print (Waiting arn 5 5), Sleep 5, DescribeCertificate arn])"
    using wait_loop_pending_step [where acm = acm and arn = arn and timeout = 10
        and sleep_time = 5 and elapsed = 5 and s = "''PENDING_VALIDATION''"] p by simp
  also have "\<dots> = wait_loop acm arn 5 10 ''PENDING_VALIDATION'' 15
      ((((tr @ [DescribeCertificate arn])
       @ [Print (Waiting arn 5 0), Sleep 5, DescribeCertificate arn])
       @ [Print (Waiting arn 5 5), Sleep 5, DescribeCertificate arn])
       @ [Print (Waiting arn 5 10), Sleep 5, DescribeCertificate arn])"
    using wait_loop_pending_step [where acm = acm and arn = arn and timeout = 10
        and sleep_time = 5 and elapsed = 10 and s = "''PENDING_VALIDATION''"] p by simp
  also have "\<dots> = Some (Inl (TimeoutException 10),
      ((((tr @ [DescribeCertificate arn])
       @ [Print (Waiting arn 5 0), Sleep 5, DescribeCertificate arn])
       @ [Print (Waiting arn 5 5), Sleep 5, DescribeCertificate arn])
       @ [Print (Waiting arn 5 10), Sleep 5, DescribeCertificate arn]))"
    by (rule wait_loop_timeout) simp
  finally show ?thesis by simp
qed


text \<open>
  C2, amended: when every poll answers \<open>PENDING_VALIDATION\<close>,
  \<open>wait_for_certificate_validation\<close> with \<open>sleep_time = 5\<close> and \<open>timeout = 10\<close> raises the
  timeout error after the fourth poll, having slept three times: the test
  \<open>elapsed_time > timeout\<close> first holds at 15 seconds.
\<close>

theorem wait_pending_times_out_after_fourth_poll:
  assumes "\<forall>k. acm k arn = status_response ''PENDING_VALIDATION''"
  shows "\<exists>new.
     wait_for_certificate_validation acm arn 5 10 tr
       = Some (Inl (TimeoutException 10), tr @ new)
     \<and> new = [DescribeCertificate arn,
               Print (Waiting arn 5 0), Sleep 5, DescribeCertificate arn,
               Print (Waiting arn 5 5), Sleep 5, DescribeCertificate arn,
               Print (Waiting arn 5 10), Sleep 5, DescribeCertificate arn]
     \<and> describe_calls new = 4
     \<and> sleep_calls new = 3"
  using wait_always_pending [where acm = acm and arn = arn and tr = tr, OF assms]
  by (simp add: describe_calls_def sleep_calls_def)

theorem wait_pending_times_out_after_fourth_poll_witness:
  "always_pending 0 ''arn'' = status_response ''PENDING_VALIDATION''
   \<and> wait_for_certificate_validation always_pending ''arn'' 5 10 []
       = Some (Inl (TimeoutException 10),
               [DescribeCertificate ''arn'',
                Print (Waiting ''arn'' 5 0), Sleep 5, DescribeCertificate ''arn'',
                Print (Waiting ''arn'' 5 5), Sleep 5, DescribeCertificate ''arn'',
                Print (Waiting ''arn'' 5 10), Sleep 5, DescribeCertificate ''arn''])"
proof -
  have p: "\<forall>k. always_pending k ''arn'' = status_response ''PENDING_VALIDATION''"
    by (simp add: always_pending_def)
  from wait_pending_times_out_after_fourth_poll
         [where acm = always_pending and arn = "''arn''" and tr = "[]", OF p] p
  show ?thesis by auto
qed

text \<open>
  C2, as stated, fails: with a certificate that stays pending, four polls have been made
  when the timeout error is raised, not two.
\<close>

theorem wait_pending_second_poll_counterexample:
  "map_option fst (wait_for_certificate_validation always_pending ''arn'' 5 10 [])
     = Some (Inl (TimeoutException 10))
   \<and> map_option (describe_calls \<circ> snd)
        (wait_for_certificate_validation always_pending ''arn'' 5 10 []) = Some 4
   \<and> map_option (describe_calls \<circ> snd)
        (wait_for_certificate_validation always_pending ''arn'' 5 10 []) \<noteq> Some 2
   \<and> wait_for_certificate_validation always_pending ''arn'' 5 10 []
       \<noteq> Some (Inl (TimeoutException 10),
                [DescribeCertificate ''arn'',
                 Print (Waiting ''arn'' 5 0), Sleep 5, DescribeCertificate ''arn''])"
proof -
  have "\<forall>k. always_pending k ''arn'' = status_response ''PENDING_VALIDATION''"
    by (simp add: always_pending_def)
  from wait_always_pending [where acm = always_pending and arn = "''arn''" and tr = "[]", OF this]
  show ?thesis
    by (simp add: describe_calls_def)
qed

text \<open>
  C8: when the successive polls answer \<open>PENDING_VALIDATION\<close>, \<open>PENDING_VALIDATION\<close>,
  \<open>ISSUED\<close>, \<open>wait_for_certificate_validation\<close> with \<open>sleep_time = 5\<close> and
  \<open>timeout = 600\<close> returns normally after exactly two sleeps (and three polls).
\<close>

theorem wait_issued_after_two_sleeps:
  assumes "acm (describe_calls tr) arn = status_response ''PENDING_VALIDATION''"
    and "acm (describe_calls tr + 1) arn = status_response ''PENDING_VALIDATION''"
    and "acm (describe_calls tr + 2) arn = status_response ''ISSUED''"
  shows "\<exists>new.
     wait_for_certificate_validation acm arn 5 600 tr = Some (Inr (), tr @ new)
     \<and> new = [DescribeCertificate arn,
               Print (Waiting arn 5 0), Sleep 5, DescribeCertificate arn,
               Print (Waiting arn 5 5), Sleep 5, DescribeCertificate arn]
     \<and> sleep_calls new = 2
     \<and> describe_calls new = 3"
proof -
  let ?t1 = "tr @ [DescribeCertificate arn]"
  let ?t2 = "?t1 @ [Print (Waiting arn 5 0), Sleep 5, DescribeCertificate arn]"
  let ?t3 = "?t2 @ [Print (Waiting arn 5 5), Sleep 5, DescribeCertificate arn]"
  have c1: "describe_calls ?t1 = describe_calls tr + 1"
    and c2: "describe_calls ?t2 = describe_calls tr + 2"
    by (simp_all add: describe_calls_def)
  have "wait_for_certificate_validation acm arn 5 600 tr
      = wait_loop acm arn 5 600 ''PENDING_VALIDATION'' 0 ?t1"
    by (simp add: wait_for_certificate_validation_def get_certificate_status_answer assms(1))
  also have "\<dots> = wait_loop acm arn 5 600 ''PENDING_VALIDATION'' 5 ?t2"
    using wait_loop_pending_step [where acm = acm and arn = arn and timeout = 600
        and sleep_time = 5 and elapsed = 0 and s = "''PENDING_VALIDATION''" and tr = ?t1]
      assms(2) c1 by simp
  also have "\<dots> = wait_loop acm arn 5 600 ''ISSUED'' 10 ?t3"
    using wait_loop_pending_step [where acm = acm and arn = arn and timeout = 600
        and sleep_time = 5 and elapsed = 5 and s = "''ISSUED''" and tr = ?t2]
      assms(3) c2 by simp
  also have "\<dots> = Some (Inr (), ?t3)"
    by (rule wait_loop_done) simp
  finally show ?thesis
    by (simp add: describe_calls_def sleep_calls_def)
qed

theorem wait_issued_after_two_sleeps_witness:
  "pending_twice_then_issued (describe_calls []) ''arn'' = status_response ''PENDING_VALIDATION''
   \<and> pending_twice_then_issued (describe_calls [] + 1) ''arn''
       = status_response ''PENDING_VALIDATION''
   \<and> pending_twice_then_issued (describe_calls [] + 2) ''arn'' = status_response ''ISSUED''
   \<and> wait_for_certificate_validation pending_twice_then_issued ''arn'' 5 600 []
       = Some (Inr (),
               [DescribeCertificate ''arn'',
                Print (Waiting ''arn'' 5 0), Sleep 5, DescribeCertificate ''arn'',
                Print (Waiting ''arn'' 5 5), Sleep 5, DescribeCertificate ''arn''])"
proof -
  have a: "pending_twice_then_issued (describe_calls []) ''arn''
             = status_response ''PENDING_VALIDATION''"
    and b: "pending_twice_then_issued (describe_calls [] + 1) ''arn''
             = status_response ''PENDING_VALIDATION''"
    and c: "pending_twice_then_issued (describe_calls [] + 2) ''arn'' = status_response ''ISSUED''"
    by (simp_all add: pending_twice_then_issued_def describe_calls_def)
  from wait_issued_after_two_sleeps
         [where acm = pending_twice_then_issued and arn = "''arn''" and tr = "[]", OF a b c]
       a b c
  show ?thesis by auto
qed

subsection \<open>Submitting the changes\<close>


lemma change_calls_append: "change_calls (a @ b) = change_calls a + change_calls b"
  by (simp add: change_calls_def)







end
